theory Spec2Isabelle
  imports Main "HOL-Library.Word"
begin

section \<open>The diagram widget (zenn-embed-elements, classes/mermaid.ts)\<close>

subsection \<open>JavaScript strings\<close>

text \<open>
  A JavaScript string is a sequence of UTF-16 code units, and \<open>length\<close> counts code
  units. The messages of the widget are Japanese, so they are written as code units;
  the ASCII parts are written as literals and converted by \<open>asc\<close>.
\<close>

type_synonym jsstring = "16 word list"

definition asc :: "string \<Rightarrow> jsstring" where
  "asc s = map of_char s"

definition nl :: jsstring where
  "nl = [0x0A]"

definition sp :: "nat \<Rightarrow> jsstring" where
  "sp n = replicate n 0x20"

text \<open>The decimal digits of a non-negative integer, as a template literal prints it.\<close>

definition digit_unit :: "nat \<Rightarrow> 16 word" where
  "digit_unit d = of_nat (48 + d)"

fun toString :: "nat \<Rightarrow> jsstring" where
  "toString n =
     (if n < 10 then [digit_unit n] else toString (n div 10) @ [digit_unit (n mod 10)])"

declare toString.simps [simp del]

subsection \<open>Constants\<close>

definition MERMAID_VERSION :: string where
  "MERMAID_VERSION = ''8.13''"

definition MAX_CHAR_LIMIT :: nat where
  "MAX_CHAR_LIMIT = 2000"

definition MAX_CHAINING_OF_LINKS_LIMIT :: nat where
  "MAX_CHAINING_OF_LINKS_LIMIT = 10"

definition containerId :: string where
  "containerId = ''mermaid-container''"

subsection \<open>The surroundings: exceptions, the library, the page\<close>

datatype jsexn =
    ReferenceError string
  | TypeError string
  | Thrown jsstring

text \<open>
  The rendering library is third-party code. Of \<open>mermaidAPI.parse\<close> the widget uses
  only whether it throws; of \<open>mermaidAPI.render\<close> whether it throws or hands the SVG
  code to the callback.
\<close>

record mermaid_lib =
  api_parse :: "jsstring \<Rightarrow> jsexn option"
  api_render :: "jsstring \<Rightarrow> jsstring \<Rightarrow> jsexn + jsstring"

record mermaid_config =
  mermaid_startOnLoad :: bool

record api_config =
  startOnLoad :: bool
  securityLevel :: string
  theme :: string
  er_useMaxWidth :: bool
  flowchart_useMaxWidth :: bool
  flowchart_htmlLabels :: bool
  sequence_useMaxWidth :: bool
  class_useMaxWidth :: bool
  journey_useMaxWidth :: bool

text \<open>What the widget does to its surroundings, in the order it does it.\<close>

datatype event =
    LoadScript jsstring string
  | Initialize mermaid_config
  | ApiInitialize api_config
  | ApiParse jsstring
  | ApiRender jsstring jsstring "nat option"
  | ConsoleLog jsstring jsexn
  | ConsoleError jsstring

datatype node =
    Text jsstring
  | Element nat string "(string \<times> string) list" "node list"

text \<open>
  The page: the global \<open>mermaid\<close> (\<open>None\<close> while \<open>typeof mermaid\<close> is
  \<open>'undefined'\<close>), the events so far, the number of times the clock was read and the
  identity the next created element gets.
\<close>

record page =
  mermaid :: "mermaid_lib option"
  trace :: "event list"
  reads :: nat
  next_id :: nat

text \<open>
  \<open>loadScript\<close> (utils/load-script) is not among the sources, so its outcome is a
  parameter: the promise rejects, or it resolves and leaves the global as given.
\<close>

datatype load_result =
    LoadRejected jsexn
  | LoadResolved "mermaid_lib option"

text \<open>
  What the browser decides: the outcome of the script load, the readings of
  \<open>Date.now()\<close> (the k-th reading is \<open>clock k\<close>), the HTML parser behind an
  assignment to \<open>innerHTML\<close>, and the layout-dependent \<open>innerText\<close>.
\<close>

record env =
  loadScript :: load_result
  clock :: "nat \<Rightarrow> nat"
  parseHTML :: "jsstring \<Rightarrow> node list"
  innerText :: "node list \<Rightarrow> jsstring"

subsection \<open>initMermaid\<close>

definition script_src :: jsstring where
  "script_src =
     asc (''https://cdn.jsdelivr.net/npm/mermaid@'' @ MERMAID_VERSION @ ''/dist/mermaid.min.js'')"

definition mermaid_options :: mermaid_config where
  "mermaid_options = \<lparr>mermaid_startOnLoad = False\<rparr>"

definition api_options :: api_config where
  "api_options =
     \<lparr>startOnLoad = False, securityLevel = ''strict'', theme = ''default'',
      er_useMaxWidth = True, flowchart_useMaxWidth = True, flowchart_htmlLabels = False,
      sequence_useMaxWidth = True, class_useMaxWidth = True, journey_useMaxWidth = True\<rparr>"

definition log_event :: "event \<Rightarrow> page \<Rightarrow> page" where
  "log_event e pg = pg\<lparr>trace := trace pg @ [e]\<rparr>"

text \<open>
  After the awaited load, \<open>mermaid!.initialize\<close> reads the global: when the script
  left it undefined, that read throws and the promise of \<open>initMermaid\<close> rejects.
\<close>

definition initMermaid :: "env \<Rightarrow> page \<Rightarrow> (jsexn + unit) \<times> page" where
  "initMermaid ev pg =
     (case mermaid pg of
        Some m \<Rightarrow> (Inr (), pg)
      | None \<Rightarrow>
          (let pg1 = log_event (LoadScript script_src ''mermaid-js'') pg in
           case loadScript ev of
             LoadRejected e \<Rightarrow> (Inl e, pg1)
           | LoadResolved None \<Rightarrow> (Inl (ReferenceError ''mermaid''), pg1)
           | LoadResolved (Some m) \<Rightarrow>
               (Inr (),
                log_event (ApiInitialize api_options)
                  (log_event (Initialize mermaid_options) (pg1\<lparr>mermaid := Some m\<rparr>)))))"

text \<open>
  The two halves of \<open>initMermaid\<close>, before and after its \<open>await\<close>. The first
  half tests the global and, while it is undefined, calls \<open>loadScript\<close>; it tells
  whether the call now awaits the load. The second half runs when the awaited load has
  settled: it reads the global and initialises the library. Between the two halves other
  code runs; a second call that starts there overlaps the first.
\<close>

definition initMermaid_start :: "page \<Rightarrow> bool \<times> page" where
  "initMermaid_start pg =
     (case mermaid pg of
        Some m \<Rightarrow> (False, pg)
      | None \<Rightarrow> (True, log_event (LoadScript script_src ''mermaid-js'') pg))"

definition initMermaid_resume :: "env \<Rightarrow> page \<Rightarrow> (jsexn + unit) \<times> page" where
  "initMermaid_resume ev pg =
     (case loadScript ev of
        LoadRejected e \<Rightarrow> (Inl e, pg)
      | LoadResolved r \<Rightarrow>
          (case (case r of None \<Rightarrow> mermaid pg | Some m \<Rightarrow> Some m) of
             None \<Rightarrow> (Inl (ReferenceError ''mermaid''), pg)
           | Some m \<Rightarrow>
               (Inr (),
                log_event (ApiInitialize api_options)
                  (log_event (Initialize mermaid_options) (pg\<lparr>mermaid := Some m\<rparr>)))))"

subsection \<open>getPotentialPerformanceRisk\<close>

record ErrorContainer =
  yes :: bool
  message :: jsstring

record PotentialRisk =
  syntaxError :: ErrorContainer
  charLimitOver :: ErrorContainer
  chainingOfLinksOver :: ErrorContainer

definition syntax_log_message :: jsstring where
  "syntax_log_message =
     asc ''mermaid.js '' @
     [0x306E, 0x30EC, 0x30F3, 0x30C0, 0x30EA, 0x30F3, 0x30B0, 0x3067, 0x30B7, 0x30F3, 0x30BF,
      0x30C3, 0x30AF, 0x30B9, 0x30A8, 0x30E9, 0x30FC, 0x304C, 0x767A, 0x751F, 0x3057, 0x307E,
      0x3057, 0x305F]"

definition syntaxError_message :: jsstring where
  "syntaxError_message =
     asc ''<li>'' @
     [0x30B7, 0x30F3, 0x30BF, 0x30C3, 0x30AF, 0x30B9, 0x30A8, 0x30E9, 0x30FC, 0x3067, 0x3059] @
     asc ''</li>''"

definition charLimitOver_message :: jsstring where
  "charLimitOver_message =
     asc ''<li>'' @
     [0x30D6, 0x30ED, 0x30C3, 0x30AF, 0x3042, 0x305F, 0x308A, 0x306E, 0x6587, 0x5B57, 0x6570,
      0x4E0A, 0x9650, 0x306F] @
     toString MAX_CHAR_LIMIT @ [0x3067, 0x3059] @ asc ''</li>''"

definition chainingOfLinksOver_message :: jsstring where
  "chainingOfLinksOver_message =
     asc ''<li>'' @
     [0x30D6, 0x30ED, 0x30C3, 0x30AF, 0x3042, 0x305F, 0x308A, 0x306E] @
     asc ''<code>&</code>'' @
     [0x306B, 0x3088, 0x308B, 0x30C1, 0x30A7, 0x30A4, 0x30F3, 0x4E0A, 0x9650, 0x306F] @
     toString MAX_CHAINING_OF_LINKS_LIMIT @ [0x3067, 0x3059] @ asc ''</li>''"

text \<open>
  The immediately invoked function that computes \<open>cool\<close>: the call of the parser
  inside \<open>try\<close>. Reading the global while it is undefined throws as well, and the
  \<open>catch\<close> takes that exception too. Every exception is logged and turned into
  \<open>false\<close>.
\<close>

definition cool :: "jsstring \<Rightarrow> page \<Rightarrow> bool \<times> page" where
  "cool source pg =
     (case mermaid pg of
        None \<Rightarrow>
          (False, log_event (ConsoleLog syntax_log_message (ReferenceError ''mermaid'')) pg)
      | Some m \<Rightarrow>
          (let pg1 = log_event (ApiParse source) pg in
           case api_parse m source of
             None \<Rightarrow> (True, pg1)
           | Some e \<Rightarrow> (False, log_event (ConsoleLog syntax_log_message e) pg1)))"

text \<open>\<open>(source.match(/&/g) || []).length\<close>: the number of code units \<open>&\<close>.\<close>

definition count_amp :: "jsstring \<Rightarrow> nat" where
  "count_amp source = length (filter (\<lambda>c. c = 0x26) source)"

definition getPotentialPerformanceRisk ::
  "jsstring \<Rightarrow> page \<Rightarrow> (jsexn + PotentialRisk) \<times> page" where
  "getPotentialPerformanceRisk source pg =
     (case cool source pg of
        (c, pg1) \<Rightarrow>
          (Inr \<lparr>syntaxError = \<lparr>yes = \<not> c, message = syntaxError_message\<rparr>,
                charLimitOver =
                  \<lparr>yes = (length source > MAX_CHAR_LIMIT), message = charLimitOver_message\<rparr>,
                chainingOfLinksOver =
                  \<lparr>yes = (count_amp source > MAX_CHAINING_OF_LINKS_LIMIT),
                   message = chainingOfLinksOver_message\<rparr>\<rparr>,
           pg1))"

subsection \<open>The widget\<close>

text \<open>
  The widget's children, the identity of the temporary container
  (\<open>_tmpContainer\<close>, \<open>None\<close> while undefined) and the visibility observer with
  the elements it observes (\<open>None\<close> while undefined).
\<close>

record widget =
  childNodes :: "node list"
  tmpContainer :: "nat option"
  observer :: "nat list option"

fun textContent :: "node \<Rightarrow> jsstring" where
  "textContent (Text s) = s"
| "textContent (Element i t a ks) = concat (map textContent ks)"

text \<open>\<open>this.textContent || this.innerText\<close>: the empty string is falsy.\<close>

definition content_of :: "env \<Rightarrow> widget \<Rightarrow> jsstring" where
  "content_of ev w =
     (let t = concat (map textContent (childNodes w))
      in if t \<noteq> [] then t else innerText ev (childNodes w))"

fun set_attr :: "string \<Rightarrow> string \<Rightarrow> (string \<times> string) list \<Rightarrow> (string \<times> string) list" where
  "set_attr k v [] = [(k, v)]"
| "set_attr k v (p # ps) = (if fst p = k then (k, v) # ps else p # set_attr k v ps)"

text \<open>
  The source casts the first child to an element without a check; a text node has no
  \<open>setAttribute\<close>, and calling it throws.
\<close>

fun setAttribute :: "string \<Rightarrow> string \<Rightarrow> node \<Rightarrow> jsexn + node" where
  "setAttribute k v (Element i t a ks) = Inr (Element i t (set_attr k v a) ks)"
| "setAttribute k v (Text s) = Inl (TypeError ''sourceContainer.setAttribute is not a function'')"

definition any_risk :: "PotentialRisk \<Rightarrow> bool" where
  "any_risk risk =
     (True \<in> set (map yes [syntaxError risk, charLimitOver risk, chainingOfLinksOver risk]))"

definition error_markup :: "PotentialRisk \<Rightarrow> jsstring" where
  "error_markup risk =
     nl @ sp 7 @ asc ''<p>'' @
     nl @ sp 8 @ asc ''<span>mermaid'' @
       [0x3092, 0x30EC, 0x30F3, 0x30C0, 0x30EA, 0x30F3, 0x30B0, 0x3067, 0x304D, 0x307E, 0x305B,
        0x3093, 0x3002] @ asc ''</span>'' @
     nl @ sp 8 @ asc ''<ul>'' @
     nl @ sp 8 @ (if yes (syntaxError risk) then message (syntaxError risk) else []) @
     nl @ sp 8 @ (if yes (charLimitOver risk) then message (charLimitOver risk) else []) @
     nl @ sp 8 @
       (if yes (chainingOfLinksOver risk) then message (chainingOfLinksOver risk) else []) @
     nl @ sp 8 @ asc ''</ul>'' @
     nl @ sp 7 @ asc ''</p>'' @
     nl @ sp 6"

text \<open>The identifier handed to the library: built from one reading of the clock.\<close>

definition render_id :: "nat \<Rightarrow> jsstring" where
  "render_id now = asc containerId @ asc ''-'' @ toString now @ asc ''-render''"

text \<open>The callback \<open>insert\<close>: a new \<open>div\<close>, appended, holding the parsed SVG code.\<close>

definition insert_svg :: "env \<Rightarrow> jsstring \<Rightarrow> widget \<times> page \<Rightarrow> widget \<times> page" where
  "insert_svg ev svgCode st =
     (case st of (w, pg) \<Rightarrow>
        (w\<lparr>childNodes := childNodes w @ [Element (next_id pg) ''div'' [] (parseHTML ev svgCode)]\<rparr>,
         pg\<lparr>next_id := Suc (next_id pg)\<rparr>))"

text \<open>
  The body of \<open>render\<close> after \<open>await initMermaid()\<close>. The optional chaining
  \<open>mermaid?.\<close> skips the call while the global is undefined. The library calls
  \<open>insert\<close> before it returns; what it does inside the temporary container is the
  library's own.
\<close>

definition render_body :: "env \<Rightarrow> widget \<times> page \<Rightarrow> (jsexn + unit) \<times> widget \<times> page" where
  "render_body ev st =
     (case st of (w, pg1) \<Rightarrow>
        (let content = content_of ev w in
         if content = [] then (Inr (), w, pg1)
         else
           (case childNodes w of
              [] \<Rightarrow> (Inl (TypeError ''sourceContainer is undefined''), w, pg1)
            | c # cs \<Rightarrow>
               (case setAttribute ''style'' ''display:none'' c of
                  Inl e \<Rightarrow> (Inl e, w, pg1)
                | Inr c' \<Rightarrow>
                   (let w1 = w\<lparr>childNodes := c' # cs\<rparr> in
                    case getPotentialPerformanceRisk content pg1 of
                      (Inl e, pg2) \<Rightarrow> (Inl e, w1, pg2)
                    | (Inr risk, pg2) \<Rightarrow>
                       if any_risk risk
                       then (Inr (), w1\<lparr>childNodes := parseHTML ev (error_markup risk)\<rparr>, pg2)
                       else
                         (case mermaid pg2 of
                            None \<Rightarrow> (Inr (), w1, pg2)
                          | Some m \<Rightarrow>
                             (let rid = render_id (clock ev (reads pg2));
                                  pg3 = log_event (ApiRender rid content (tmpContainer w1))
                                          (pg2\<lparr>reads := Suc (reads pg2)\<rparr>)
                              in case api_render m rid content of
                                   Inl e \<Rightarrow> (Inl e, w1, pg3)
                                 | Inr svgCode \<Rightarrow>
                                    (case insert_svg ev svgCode (w1, pg3) of
                                       (w2, pg4) \<Rightarrow> (Inr (), w2, pg4)))))))))"

text \<open>
  \<open>render\<close>, run from its call to its end with nothing else in between: the awaited
  \<open>initMermaid\<close>, then the body. The result is the settled promise (\<open>Inl\<close>:
  rejected) and the state it leaves.
\<close>

definition render :: "env \<Rightarrow> widget \<times> page \<Rightarrow> (jsexn + unit) \<times> widget \<times> page" where
  "render ev st =
     (case st of (w, pg) \<Rightarrow>
        (case initMermaid ev pg of
           (Inl e, pg1) \<Rightarrow> (Inl e, w, pg1)
         | (Inr u, pg1) \<Rightarrow> render_body ev (w, pg1)))"

text \<open>
  What is left of a \<open>render\<close> that has run up to its \<open>await\<close>: the second half
  of \<open>initMermaid\<close> if the call awaits the load, then the body.
\<close>

definition render_resume ::
  "env \<Rightarrow> bool \<Rightarrow> widget \<times> page \<Rightarrow> (jsexn + unit) \<times> widget \<times> page" where
  "render_resume ev awaiting st =
     (case st of (w, pg) \<Rightarrow>
        (case (if awaiting then initMermaid_resume ev pg else (Inr (), pg)) of
           (Inl e, pg1) \<Rightarrow> (Inl e, w, pg1)
         | (Inr u, pg1) \<Rightarrow> render_body ev (w, pg1)))"

subsection \<open>Attachment, detachment and the visibility observer\<close>

definition connectedCallback :: "widget \<times> page \<Rightarrow> widget \<times> page" where
  "connectedCallback st =
     (case st of (w, pg) \<Rightarrow>
        (let t = next_id pg;
             w1 = w\<lparr>childNodes := childNodes w @ [Element t ''div'' [] []],
                    tmpContainer := Some t\<rparr>;
             w2 = w1\<lparr>observer := Some []\<rparr>
         in (case tmpContainer w2 of
               None \<Rightarrow> w2
             | Some t' \<Rightarrow> w2\<lparr>observer := Some [t']\<rparr>,
             pg\<lparr>next_id := Suc t\<rparr>)))"

definition disconnectedCallback :: "widget \<Rightarrow> widget" where
  "disconnectedCallback w =
     (case observer w of
        None \<Rightarrow> w
      | Some ts \<Rightarrow> w\<lparr>observer := Some []\<rparr>)"

record entry =
  target :: nat
  isIntersecting :: bool

text \<open>
  The body of the observer's callback for one entry, as far as it runs inside the
  callback. \<open>this.render()\<close> runs up to its \<open>await\<close>, that is the first half of
  \<open>initMermaid\<close>, and returns a promise that is dropped; then \<open>_tmpContainer\<close>
  is checked and unobserved. The renders started are kept in the order of their calls,
  each with whether it awaits the script load.
\<close>

definition on_entry ::
  "entry \<Rightarrow> (widget \<times> page) \<times> bool list \<Rightarrow> (widget \<times> page) \<times> bool list" where
  "on_entry e acc =
     (case acc of
        ((w, pg), started) \<Rightarrow>
          if isIntersecting e then
            (case initMermaid_start pg of
               (awaiting, pg1) \<Rightarrow>
                 (case tmpContainer w of
                    None \<Rightarrow>
                      ((w, log_event (ConsoleError (asc ''Something wrong with _tmpContainer'')) pg1),
                       started @ [awaiting])
                  | Some t \<Rightarrow>
                      ((w\<lparr>observer := map_option (removeAll t) (observer w)\<rparr>, pg1),
                       started @ [awaiting])))
          else acc)"

text \<open>
  One call of the observer's callback: \<open>entries.forEach\<close> runs the body for every
  entry of the batch, in order; after the callback has returned, the renders it started
  are resumed in the order they were started, each running to its end.
\<close>

definition observer_callback :: "env \<Rightarrow> entry list \<Rightarrow> widget \<times> page \<Rightarrow> widget \<times> page" where
  "observer_callback ev entries st =
     (case fold on_entry entries (st, []) of
        (st1, started) \<Rightarrow>
          fold (\<lambda>awaiting s. case render_resume ev awaiting s of (r, w, pg) \<Rightarrow> (w, pg))
            started st1)"

text \<open>The number of calls of the library's \<open>render\<close> among the events.\<close>

fun is_ApiRender :: "event \<Rightarrow> bool" where
  "is_ApiRender (ApiRender i c t) = True"
| "is_ApiRender e = False"

definition render_calls :: "page \<Rightarrow> nat" where
  "render_calls pg = length (filter is_ApiRender (trace pg))"

subsection \<open>Example surroundings\<close>

text \<open>
  Concrete surroundings on which the theorems below are run: a library that accepts
  every source and draws an empty SVG, a library that rejects every source, a browser
  that loads the accepting library, reads the same millisecond from the clock every
  time and has a stand-in for its HTML parser that takes every markup for the empty SVG
  (the only markup parsed in the runs below), and a widget as it stands in a page
  before attachment: a \<open>pre\<close> element, of the given identity, holding the source.
  The pages have room for two such widgets: the next new element gets identity 2.
\<close>

definition lib_accepting :: mermaid_lib where
  "lib_accepting =
     \<lparr>api_parse = (\<lambda>s. None), api_render = (\<lambda>i s. Inr (asc ''<svg></svg>''))\<rparr>"

definition lib_rejecting :: mermaid_lib where
  "lib_rejecting =
     \<lparr>api_parse = (\<lambda>s. Some (Thrown (asc ''Parse error''))),
      api_render = (\<lambda>i s. Inl (Thrown (asc ''Parse error'')))\<rparr>"

definition example_env :: env where
  "example_env =
     \<lparr>loadScript = LoadResolved (Some lib_accepting),
      clock = (\<lambda>k. 1700000000000),
      parseHTML = (\<lambda>s. [Element 0 ''svg'' [] []]),
      innerText = (\<lambda>ns. [])\<rparr>"

definition page_fresh :: page where
  "page_fresh = \<lparr>mermaid = None, trace = [], reads = 0, next_id = 2\<rparr>"

definition page_accepting :: page where
  "page_accepting = \<lparr>mermaid = Some lib_accepting, trace = [], reads = 0, next_id = 2\<rparr>"

definition page_rejecting :: page where
  "page_rejecting = \<lparr>mermaid = Some lib_rejecting, trace = [], reads = 0, next_id = 2\<rparr>"

definition source_widget :: "nat \<Rightarrow> jsstring \<Rightarrow> widget" where
  "source_widget i source =
     \<lparr>childNodes = [Element i ''pre'' [] [Text source]], tmpContainer = None, observer = None\<rparr>"

definition flowchart :: jsstring where
  "flowchart = asc ''graph TD; A-->B''"

definition sequence_chart :: jsstring where
  "sequence_chart = asc ''sequenceDiagram; A->>B: hi''"

text \<open>
  One batch of the visibility observer for the element with identity 2: visible, out of
  sight, visible again.
\<close>

definition flicker_batch :: "entry list" where
  "flicker_batch =
     [\<lparr>target = 2, isIntersecting = True\<rparr>, \<lparr>target = 2, isIntersecting = False\<rparr>,
      \<lparr>target = 2, isIntersecting = True\<rparr>]"

section \<open>The markdown converter (zenn-markdown-html)\<close>

text \<open>
  Modelled from the spec: \<open>markdownToHtml\<close> (zenn-markdown-html, src/index) is not
  among the sources; only its test \<open>br.test.ts\<close> is. The specification describes it
  as a thin wrapper over a third-party markdown library, configured for tables and line
  breaks, with no tokenizer of its own. So the library's parser is a parameter: it reads
  the markdown text into blocks (paragraphs, fenced and indented code blocks, tables)
  of inline content (text, raw HTML tags, code spans, line breaks), and by that says
  what in an input is prose, a table cell or code. What the specification states is
  what the converter makes of each: a raw HTML tag of the allowlist (the specification
  names \<open>br\<close>) in prose or in a table cell is passed through; the content of a code
  span and of a code block is literal text and always escaped; all other text is
  escaped.
\<close>

datatype inline_token =
    TextRun string
  | HtmlInline string
  | CodeInline string
  | SoftBreak

datatype block_token =
    Para "inline_token list"
  | FencedCode string
  | IndentedCode string
  | TableBlock "inline_token list list" "inline_token list list list"

type_synonym md_parser = "string \<Rightarrow> block_token list"

definition html_allowlist :: "string list" where
  "html_allowlist = [''br'']"

text \<open>A tag of the allowlist: the name between \<open><\<close> and \<open>>\<close>, \<open>/>\<close> or \<open> />\<close>.\<close>

definition allowed_html :: "string \<Rightarrow> bool" where
  "allowed_html t =
     (\<exists>n \<in> set html_allowlist.
        t = ''<'' @ n @ ''>'' \<or> t = ''<'' @ n @ ''/>'' \<or> t = ''<'' @ n @ '' />'')"

fun escape_char :: "char \<Rightarrow> string" where
  "escape_char c =
     (if c = CHR ''<'' then ''&lt;''
      else if c = CHR ''>'' then ''&gt;''
      else if c = CHR ''&'' then ''&amp;''
      else if c = CHR 0x22 then ''&quot;''
      else [c])"

definition escapeHtml :: "string \<Rightarrow> string" where
  "escapeHtml s = concat (map escape_char s)"

text \<open>
  Modelled from the spec: what the converter writes for inline content. With line
  breaks enabled a line break inside a paragraph becomes a \<open>br\<close> element.
\<close>

fun render_inline :: "inline_token \<Rightarrow> string" where
  "render_inline (TextRun s) = escapeHtml s"
| "render_inline (HtmlInline t) = (if allowed_html t then t else escapeHtml t)"
| "render_inline (CodeInline c) = ''<code>'' @ escapeHtml c @ ''</code>''"
| "render_inline SoftBreak = ''<br>\<newline>''"

definition render_inlines :: "inline_token list \<Rightarrow> string" where
  "render_inlines ns = concat (map render_inline ns)"

definition table_row :: "string \<Rightarrow> inline_token list list \<Rightarrow> string" where
  "table_row tag cs =
     ''<tr>\<newline>'' @
     concat (map (\<lambda>c. ''<'' @ tag @ ''>'' @ render_inlines c @ ''</'' @ tag @ ''>\<newline>'') cs) @
     ''</tr>\<newline>''"

text \<open>Modelled from the spec: what the converter writes for a block.\<close>

fun render_block :: "block_token \<Rightarrow> string" where
  "render_block (Para ns) = ''<p>'' @ render_inlines ns @ ''</p>\<newline>''"
| "render_block (FencedCode c) = ''<pre><code>'' @ escapeHtml c @ ''</code></pre>\<newline>''"
| "render_block (IndentedCode c) = ''<pre><code>'' @ escapeHtml c @ ''</code></pre>\<newline>''"
| "render_block (TableBlock hs rows) =
     ''<table>\<newline><thead>\<newline>'' @ table_row ''th'' hs @ ''</thead>\<newline>'' @
     (if rows = [] then []
      else ''<tbody>\<newline>'' @ concat (map (table_row ''td'') rows) @ ''</tbody>\<newline>'') @
     ''</table>\<newline>''"

text \<open>
  Modelled from the spec: the converter itself, \<open>(markdownSource: string) -> htmlString\<close>,
  over the library's parser.
\<close>

definition markdownToHtml :: "md_parser \<Rightarrow> string \<Rightarrow> string" where
  "markdownToHtml p text = concat (map render_block (p text))"








subsection \<open>A stand-in for the library's parser\<close>

text \<open>
  A small reading of CommonMark with tables, on which the inputs of the test are run:
  paragraphs, code blocks fenced by three or more backticks or tildes, code blocks
  indented by four spaces, tables, and inline code spans between backtick runs of equal
  length (also across line breaks), raw HTML tags, backslash escapes and line breaks.
  It stands for the third-party library and is no part of the converter.
\<close>

definition backtick :: char where
  "backtick = CHR 0x60"

definition newline :: char where
  "newline = CHR 0x0A"

definition space :: char where
  "space = CHR 0x20"

definition run_length :: "char \<Rightarrow> string \<Rightarrow> nat" where
  "run_length ch s = length (takeWhile (\<lambda>c. c = ch) s)"

text \<open>
  The closing run of a code span opened by \<open>n\<close> backticks: the first run of exactly
  \<open>n\<close> backticks. Gives the text before it and the text after it.
\<close>

fun find_close :: "nat \<Rightarrow> bool \<Rightarrow> string \<Rightarrow> (string \<times> string) option" where
  "find_close n prev [] = None"
| "find_close n prev (c # cs) =
     (if c = backtick \<and> \<not> prev \<and> run_length backtick (c # cs) = n
      then Some ([], drop n (c # cs))
      else (case find_close n (c = backtick) cs of
              None \<Rightarrow> None
            | Some (content, rest) \<Rightarrow> Some (c # content, rest)))"

text \<open>
  The content of a code span: line endings become spaces, and one space is stripped
  from each end when both ends have one and the content is not spaces only.
\<close>

definition code_content :: "string \<Rightarrow> string" where
  "code_content raw =
     (let s = map (\<lambda>c. if c = newline then space else c) raw
      in if 2 \<le> length s \<and> hd s = space \<and> last s = space \<and> \<not> list_all (\<lambda>c. c = space) s
         then butlast (tl s) else s)"

definition is_letter :: "char \<Rightarrow> bool" where
  "is_letter c =
     ((97 \<le> (of_char c :: nat) \<and> (of_char c :: nat) \<le> 122) \<or>
      (65 \<le> (of_char c :: nat) \<and> (of_char c :: nat) \<le> 90))"

definition is_punct :: "char \<Rightarrow> bool" where
  "is_punct c =
     ((33 \<le> (of_char c :: nat) \<and> (of_char c :: nat) \<le> 47) \<or>
      (58 \<le> (of_char c :: nat) \<and> (of_char c :: nat) \<le> 64) \<or>
      (91 \<le> (of_char c :: nat) \<and> (of_char c :: nat) \<le> 96) \<or>
      (123 \<le> (of_char c :: nat) \<and> (of_char c :: nat) \<le> 126))"

text \<open>
  The body of a raw HTML tag, given the text after its \<open><\<close>: up to the next
  \<open>>\<close>, starting with a letter or a slash, on one line.
\<close>

definition html_tag_at :: "string \<Rightarrow> string option" where
  "html_tag_at cs =
     (let body = takeWhile (\<lambda>c. c \<noteq> CHR ''>'') cs
      in if CHR ''>'' \<in> set cs \<and> body \<noteq> [] \<and> (is_letter (hd body) \<or> hd body = CHR ''/'') \<and>
            CHR ''<'' \<notin> set body \<and> newline \<notin> set body
         then Some body else None)"

fun add_text :: "string \<Rightarrow> inline_token list \<Rightarrow> inline_token list" where
  "add_text s (TextRun t # ts) = TextRun (s @ t) # ts"
| "add_text s ts = TextRun s # ts"

lemma find_close_length:
  "find_close n prev s = Some (content, rest) \<Longrightarrow> length rest \<le> length s"
  by (induction s arbitrary: prev content rest)
    (auto split: if_splits option.splits intro: le_SucI)

lemma run_length_pos: "0 < run_length ch (ch # cs)"
  by (simp add: run_length_def)

function parse_inline :: "string \<Rightarrow> inline_token list" where
  "parse_inline [] = []"
| "parse_inline (c # cs) =
     (if c = backtick then
        (case find_close (run_length backtick (c # cs)) False
                (drop (run_length backtick (c # cs)) (c # cs)) of
           Some (content, rest) \<Rightarrow> CodeInline (code_content content) # parse_inline rest
         | None \<Rightarrow>
             add_text (replicate (run_length backtick (c # cs)) backtick)
               (parse_inline (drop (run_length backtick (c # cs)) (c # cs))))
      else if c = CHR ''<'' then
        (case html_tag_at cs of
           Some body \<Rightarrow> HtmlInline (c # body @ ''>'') # parse_inline (drop (Suc (length body)) cs)
         | None \<Rightarrow> add_text [c] (parse_inline cs))
      else if c = CHR 0x5C \<and> cs \<noteq> [] \<and> is_punct (hd cs) then
        add_text [hd cs] (parse_inline (tl cs))
      else if c = newline then SoftBreak # parse_inline cs
      else add_text [c] (parse_inline cs))"
  by pat_completeness auto

termination
proof (relation "measure length", simp_all, goal_cases)
  case (1 c cs)
  from run_length_pos [of backtick cs] show ?case by arith
next
  case (2 c cs x2 x y)
  then have "find_close (run_length backtick (backtick # cs)) False
               (drop (run_length backtick (backtick # cs)) (backtick # cs)) = Some (x, y)"
    by simp
  from find_close_length [OF this] run_length_pos [of backtick cs] show ?case by simp
qed

fun split_on :: "char \<Rightarrow> string \<Rightarrow> string list" where
  "split_on d [] = [[]]"
| "split_on d (c # cs) =
     (if c = d then [] # split_on d cs
      else (case split_on d cs of [] \<Rightarrow> [[c]] | r # rs \<Rightarrow> (c # r) # rs))"

definition trim :: "string \<Rightarrow> string" where
  "trim s = rev (dropWhile (\<lambda>c. c = space) (rev (dropWhile (\<lambda>c. c = space) s)))"

fun join_lines :: "string list \<Rightarrow> string" where
  "join_lines [] = []"
| "join_lines [l] = l"
| "join_lines (l # ls) = l @ newline # join_lines ls"

definition unlines :: "string list \<Rightarrow> string" where
  "unlines ls = concat (map (\<lambda>l. l @ [newline]) ls)"

definition indent :: "string \<Rightarrow> nat" where
  "indent l = run_length space l"

definition is_blank :: "string \<Rightarrow> bool" where
  "is_blank l = (trim l = [])"

text \<open>
  An opening fence: at most three spaces, then three or more backticks or tildes; a
  backtick fence has no backtick after it. A closing fence is of the same character, at
  least as long, and alone on its line.
\<close>

definition fence_open :: "string \<Rightarrow> (char \<times> nat) option" where
  "fence_open l =
     (let s = dropWhile (\<lambda>c. c = space) l
      in if s \<noteq> [] \<and> indent l \<le> 3 \<and> (hd s = backtick \<or> hd s = CHR ''~'') \<and>
            3 \<le> run_length (hd s) s \<and>
            (hd s = CHR ''~'' \<or> backtick \<notin> set (drop (run_length (hd s) s) s))
         then Some (hd s, run_length (hd s) s) else None)"

definition fence_close :: "char \<Rightarrow> nat \<Rightarrow> string \<Rightarrow> bool" where
  "fence_close ch n l =
     (let s = dropWhile (\<lambda>c. c = space) l
      in indent l \<le> 3 \<and> n \<le> run_length ch s \<and> trim (drop (run_length ch s) s) = [])"

definition is_row :: "string \<Rightarrow> bool" where
  "is_row l = (take 1 (trim l) = ''|'')"

text \<open>The cells of a table row: the text between the pipes, trimmed.\<close>

definition cells :: "string \<Rightarrow> string list" where
  "cells l =
     (let parts = tl (split_on (CHR ''|'') (trim l))
      in map trim (if parts \<noteq> [] \<and> last parts = [] then butlast parts else parts))"

definition is_delimiter :: "string \<Rightarrow> bool" where
  "is_delimiter l =
     (is_row l \<and> cells l \<noteq> [] \<and>
      list_all (\<lambda>c. c \<noteq> [] \<and> list_all (\<lambda>x. x = CHR ''-'' \<or> x = CHR '':'') c) (cells l))"

definition para :: "string list \<Rightarrow> block_token" where
  "para ls = Para (parse_inline (join_lines ls))"

definition table :: "string list \<Rightarrow> string list list \<Rightarrow> block_token" where
  "table hs rows = TableBlock (map parse_inline hs) (map (map parse_inline) rows)"

datatype block_state =
    Top
  | InPara "string list"
  | InFence char nat "string list"
  | InIndented "string list"
  | InTableHead "string list"
  | InTable "string list" "string list list"

text \<open>
  The lines of the document, block by block. The state holds the lines of the block
  that is open. A line that ends a block without belonging to it is read again from
  the top.
\<close>

function (sequential) blocks :: "block_state \<Rightarrow> string list \<Rightarrow> block_token list" where
  "blocks Top [] = []"
| "blocks Top (l # ls) =
     (case fence_open l of
        Some (ch, n) \<Rightarrow> blocks (InFence ch n []) ls
      | None \<Rightarrow>
          if is_blank l then blocks Top ls
          else if 4 \<le> indent l then blocks (InIndented [drop 4 l]) ls
          else if is_row l \<and> ls \<noteq> [] \<and> is_delimiter (hd ls) then blocks (InTableHead (cells l)) ls
          else blocks (InPara [dropWhile (\<lambda>c. c = space) l]) ls)"
| "blocks (InPara acc) [] = [para acc]"
| "blocks (InPara acc) (l # ls) =
     (if is_blank l then para acc # blocks Top ls
      else if fence_open l \<noteq> None then para acc # blocks Top (l # ls)
      else blocks (InPara (acc @ [dropWhile (\<lambda>c. c = space) l])) ls)"
| "blocks (InFence ch n acc) [] = [FencedCode (unlines acc)]"
| "blocks (InFence ch n acc) (l # ls) =
     (if fence_close ch n l then FencedCode (unlines acc) # blocks Top ls
      else blocks (InFence ch n (acc @ [l])) ls)"
| "blocks (InIndented acc) [] = [IndentedCode (unlines acc)]"
| "blocks (InIndented acc) (l # ls) =
     (if 4 \<le> indent l then blocks (InIndented (acc @ [drop 4 l])) ls
      else IndentedCode (unlines acc) # blocks Top (l # ls))"
| "blocks (InTableHead hs) [] = [table hs []]"
| "blocks (InTableHead hs) (l # ls) = blocks (InTable hs []) ls"
| "blocks (InTable hs rows) [] = [table hs rows]"
| "blocks (InTable hs rows) (l # ls) =
     (if is_row l then blocks (InTable hs (rows @ [cells l])) ls
      else table hs rows # blocks Top (l # ls))"
  by pat_completeness auto

termination
  by (relation "measure (\<lambda>(st, ls). 2 * length ls + (if st = Top then 0 else 1))") auto

definition commonmark_lite :: md_parser where
  "commonmark_lite text = blocks Top (split_on newline text)"

text \<open>Text without a backtick, a \<open><\<close>, a backslash or a line break.\<close>

definition simple_text :: "string \<Rightarrow> bool" where
  "simple_text s =
     list_all (\<lambda>c. c \<noteq> backtick \<and> c \<noteq> CHR ''<'' \<and> c \<noteq> CHR 0x5C \<and> c \<noteq> newline) s"

text \<open>The inputs of the test.\<close>

definition tableString :: string where
  "tableString = ''| a | b |\<newline>| --- | --- |\<newline>| foo<br>bar | c |''"



section \<open>Properties of the diagram widget\<close>

subsection \<open>Auxiliary facts\<close>

lemma count_amp_count_list: "count_amp source = count_list source 0x26"
  unfolding count_amp_def by (induction source) auto

lemma risk_returns:
  "getPotentialPerformanceRisk source pg =
     (Inr \<lparr>syntaxError = \<lparr>yes = \<not> fst (cool source pg), message = syntaxError_message\<rparr>,
           charLimitOver =
             \<lparr>yes = (length source > MAX_CHAR_LIMIT), message = charLimitOver_message\<rparr>,
           chainingOfLinksOver =
             \<lparr>yes = (count_amp source > MAX_CHAINING_OF_LINKS_LIMIT),
              message = chainingOfLinksOver_message\<rparr>\<rparr>,
      snd (cool source pg))"
  unfolding getPotentialPerformanceRisk_def by (simp add: case_prod_unfold)

lemma initMermaid_loaded: "mermaid pg = Some m \<Longrightarrow> initMermaid ev pg = (Inr (), pg)"
  by (simp add: initMermaid_def)

lemma initMermaid_first:
  "mermaid pg = None \<Longrightarrow> loadScript ev = LoadResolved (Some m) \<Longrightarrow>
   initMermaid ev pg =
     (Inr (), pg\<lparr>mermaid := Some m,
                 trace := trace pg @ [LoadScript script_src ''mermaid-js'',
                   Initialize mermaid_options, ApiInitialize api_options]\<rparr>)"
  by (simp add: initMermaid_def log_event_def)

text \<open>A call that nothing interrupts is its two halves, one after the other.\<close>

lemma initMermaid_split:
  "initMermaid ev pg =
     (case initMermaid_start pg of
        (awaiting, pg1) \<Rightarrow> if awaiting then initMermaid_resume ev pg1 else (Inr (), pg1))"
  by (auto simp add: initMermaid_def initMermaid_start_def initMermaid_resume_def log_event_def
      Let_def split: option.splits load_result.splits)

lemma render_split:
  "render ev (w, pg) =
     (case initMermaid_start pg of (awaiting, pg1) \<Rightarrow> render_resume ev awaiting (w, pg1))"
  by (simp add: render_def render_resume_def initMermaid_split split: prod.splits)

lemma render_calls_initMermaid: "render_calls (snd (initMermaid ev pg)) = render_calls pg"
  by (auto simp add: initMermaid_def render_calls_def log_event_def Let_def
      split: option.splits load_result.splits)

lemma render_calls_cool: "render_calls (snd (cool source pg)) = render_calls pg"
  by (auto simp add: cool_def render_calls_def log_event_def Let_def split: option.splits)

lemma render_risky_calls:
  assumes "MAX_CHAR_LIMIT < length (content_of ev w)"
  shows "render_calls (snd (snd (render ev (w, pg)))) = render_calls pg"
proof -
  obtain r pg1 where i: "initMermaid ev pg = (r, pg1)" by (cases "initMermaid ev pg")
  have c1: "render_calls pg1 = render_calls pg"
    using render_calls_initMermaid [of ev pg] i by simp
  have c2: "render_calls (snd (cool (content_of ev w) pg1)) = render_calls pg"
    using render_calls_cool [of "content_of ev w" pg1] c1 by simp
  show ?thesis
    using assms i c1 c2
    by (simp add: render_def render_body_def risk_returns any_risk_def Let_def
        split: sum.splits list.splits)
qed

lemma content_source_widget: "source \<noteq> [] \<Longrightarrow> content_of ev (source_widget i source) = source"
  by (simp add: content_of_def source_widget_def)

subsection \<open>The risk set\<close>

text \<open>
  C4. A diagram source of more than 2000 code units gets \<open>charLimitOver.yes = true\<close>
  from \<open>getPotentialPerformanceRisk\<close>, and a \<open>render\<close> of a widget with that content
  never calls the library's \<open>render\<close>: the number of such calls among the events is
  the same after as before, on every path through \<open>render\<close>.
\<close>

theorem char_limit_over:
  assumes "2000 < length (content_of ev w)"
  shows "(\<exists>risk pg'. getPotentialPerformanceRisk (content_of ev w) pg0 = (Inr risk, pg') \<and>
            yes (charLimitOver risk)) \<and>
         render_calls (snd (snd (render ev (w, pg)))) = render_calls pg"
  using assms render_risky_calls [of ev w pg]
  by (simp add: risk_returns MAX_CHAR_LIMIT_def)

theorem char_limit_over_witness:
  "2000 < length (content_of example_env (source_widget 0 (replicate 2001 0x41))) \<and>
   (\<exists>risk pg'. getPotentialPerformanceRisk
        (content_of example_env (source_widget 0 (replicate 2001 0x41))) page_accepting =
          (Inr risk, pg') \<and> yes (charLimitOver risk)) \<and>
   render_calls (snd (snd (render example_env (source_widget 0 (replicate 2001 0x41), page_accepting)))) =
     render_calls page_accepting"
proof -
  have h: "2000 < length (content_of example_env (source_widget 0 (replicate 2001 0x41)))"
    by (simp add: content_source_widget)
  from char_limit_over [OF h, of page_accepting page_accepting] h show ?thesis by blast
qed

text \<open>
  C5. A diagram source with more than 10 occurrences of the code unit \<open>&\<close> (0x26),
  wherever they stand, gets \<open>chainingOfLinksOver.yes = true\<close>.
\<close>

theorem chaining_over_limit:
  "10 < count_list source 0x26 \<Longrightarrow>
     \<exists>risk pg'. getPotentialPerformanceRisk source pg = (Inr risk, pg') \<and>
       yes (chainingOfLinksOver risk)"
  by (simp add: risk_returns count_amp_count_list MAX_CHAINING_OF_LINKS_LIMIT_def)

theorem chaining_over_limit_witness:
  "10 < count_list (replicate 11 (0x26 :: 16 word)) 0x26 \<and>
   (\<exists>risk pg'. getPotentialPerformanceRisk (replicate 11 0x26) page_accepting = (Inr risk, pg') \<and>
       yes (chainingOfLinksOver risk))"
proof -
  have h: "10 < count_list (replicate 11 (0x26 :: 16 word)) 0x26"
    by (simp add: eval_nat_numeral)
  from chaining_over_limit [OF h, of page_accepting] h show ?thesis by blast
qed

text \<open>
  C6. With the library loaded, \<open>getPotentialPerformanceRisk\<close> always returns a risk
  set, never an exception. When \<open>mermaidAPI.parse\<close> throws, the exception is logged on
  the console after the call and \<open>syntaxError.yes\<close> is true; when it returns,
  nothing is logged and \<open>syntaxError.yes\<close> is false.
\<close>

theorem syntax_error_caught:
  "mermaid pg = Some m \<Longrightarrow>
     \<exists>risk. getPotentialPerformanceRisk source pg =
        (Inr risk,
         case api_parse m source of
           None \<Rightarrow> log_event (ApiParse source) pg
         | Some e \<Rightarrow> log_event (ConsoleLog syntax_log_message e) (log_event (ApiParse source) pg)) \<and>
       yes (syntaxError risk) = (api_parse m source \<noteq> None)"
  by (auto simp add: risk_returns cool_def Let_def split: option.splits)

theorem syntax_error_caught_witness:
  "mermaid page_rejecting = Some lib_rejecting \<and>
   api_parse lib_rejecting flowchart = Some (Thrown (asc ''Parse error'')) \<and>
   (\<exists>risk. getPotentialPerformanceRisk flowchart page_rejecting =
        (Inr risk,
         log_event (ConsoleLog syntax_log_message (Thrown (asc ''Parse error'')))
           (log_event (ApiParse flowchart) page_rejecting)) \<and>
       yes (syntaxError risk))"
proof -
  have h: "mermaid page_rejecting = Some lib_rejecting"
    by (simp add: page_rejecting_def)
  have p: "api_parse lib_rejecting flowchart = Some (Thrown (asc ''Parse error''))"
    by (simp add: lib_rejecting_def)
  from syntax_error_caught [OF h, of flowchart] h p show ?thesis by simp
qed

subsection \<open>Loading the library\<close>

text \<open>
  C7, amended. For calls of \<open>initMermaid\<close> that run one after the other, where the
  library is loaded already or the script load defines it: the call resolves; it adds
  one script load and one of each initialisation to the events when the global was
  undefined and nothing when it was defined; the global is defined afterwards, a further
  call changes nothing, and any number of calls in a row leave the page as one call
  does.
\<close>

theorem initMermaid_idempotent:
  assumes "mermaid pg \<noteq> None \<or> loadScript ev = LoadResolved (Some m)"
  shows "fst (initMermaid ev pg) = Inr () \<and>
         trace (snd (initMermaid ev pg)) =
           trace pg @ (if mermaid pg = None
                       then [LoadScript script_src ''mermaid-js'', Initialize mermaid_options,
                             ApiInitialize api_options]
                       else []) \<and>
         mermaid (snd (initMermaid ev pg)) \<noteq> None \<and>
         initMermaid ev (snd (initMermaid ev pg)) = (Inr (), snd (initMermaid ev pg)) \<and>
         ((\<lambda>p. snd (initMermaid ev p)) ^^ Suc n) pg = snd (initMermaid ev pg)"
proof -
  let ?p = "snd (initMermaid ev pg)"
  have a: "fst (initMermaid ev pg) = Inr ()"
    using assms by (cases "mermaid pg") (auto simp add: initMermaid_loaded initMermaid_first)
  have b: "trace ?p = trace pg @ (if mermaid pg = None
                       then [LoadScript script_src ''mermaid-js'', Initialize mermaid_options,
                             ApiInitialize api_options]
                       else [])"
    using assms by (cases "mermaid pg") (auto simp add: initMermaid_loaded initMermaid_first)
  have c: "mermaid ?p \<noteq> None"
    using assms by (cases "mermaid pg") (auto simp add: initMermaid_loaded initMermaid_first)
  then have d: "initMermaid ev ?p = (Inr (), ?p)"
    by (auto simp add: initMermaid_loaded)
  have e: "((\<lambda>p. snd (initMermaid ev p)) ^^ Suc n) pg = ?p"
  proof (induction n)
    case 0
    show ?case by simp
  next
    case (Suc n)
    then show ?case using d by simp
  qed
  from a b c d e show ?thesis by blast
qed

theorem initMermaid_idempotent_witness:
  "mermaid page_fresh = None \<and> loadScript example_env = LoadResolved (Some lib_accepting) \<and>
   fst (initMermaid example_env page_fresh) = Inr () \<and>
   trace (snd (initMermaid example_env page_fresh)) =
     [LoadScript script_src ''mermaid-js'', Initialize mermaid_options, ApiInitialize api_options] \<and>
   ((\<lambda>p. snd (initMermaid example_env p)) ^^ 3) page_fresh = snd (initMermaid example_env page_fresh)"
proof -
  have h: "mermaid page_fresh \<noteq> None \<or> loadScript example_env = LoadResolved (Some lib_accepting)"
    by (simp add: example_env_def)
  have u: "mermaid page_fresh = None" "trace page_fresh = []"
    by (simp_all add: page_fresh_def)
  have l: "loadScript example_env = LoadResolved (Some lib_accepting)"
    by (simp add: example_env_def)
  from initMermaid_idempotent [OF h, of 2] u l show ?thesis
    by (simp add: numeral_3_eq_3)
qed

text \<open>
  C7, counterexample. Two calls that overlap, as the renders of two widgets that come
  into view together do: the second starts while the first awaits the load. Both find
  the global undefined and both call \<open>loadScript\<close>; once the load has defined the
  library, each of them initialises it. That is two loads and two initialisations,
  where a single call makes one of each.
\<close>

theorem initMermaid_overlap_twice:
  "fst (initMermaid_start page_fresh) \<and>
   fst (initMermaid_start (snd (initMermaid_start page_fresh))) \<and>
   trace (snd (initMermaid_resume example_env (snd (initMermaid_resume example_env
      (snd (initMermaid_start (snd (initMermaid_start page_fresh)))))))) =
     [LoadScript script_src ''mermaid-js'', LoadScript script_src ''mermaid-js'',
      Initialize mermaid_options, ApiInitialize api_options,
      Initialize mermaid_options, ApiInitialize api_options] \<and>
   trace (snd (initMermaid example_env page_fresh)) =
     [LoadScript script_src ''mermaid-js'', Initialize mermaid_options, ApiInitialize api_options]"
  by (simp add: initMermaid_start_def initMermaid_resume_def initMermaid_def log_event_def
      page_fresh_def example_env_def)

subsection \<open>The paths through render\<close>

lemma render_empty:
  "initMermaid ev pg = (Inr u, pg1) \<Longrightarrow> content_of ev w = [] \<Longrightarrow>
   render ev (w, pg) = (Inr (), w, pg1)"
  by (simp add: render_def render_body_def)

lemma render_risk:
  "initMermaid ev pg = (Inr u, pg1) \<Longrightarrow> content_of ev w \<noteq> [] \<Longrightarrow>
   childNodes w = Element i t a ks # cs \<Longrightarrow>
   getPotentialPerformanceRisk (content_of ev w) pg1 = (Inr risk, pg2) \<Longrightarrow> any_risk risk \<Longrightarrow>
   render ev (w, pg) = (Inr (), w\<lparr>childNodes := parseHTML ev (error_markup risk)\<rparr>, pg2)"
  by (simp add: render_def render_body_def)

lemma render_no_risk:
  "initMermaid ev pg = (Inr u, pg1) \<Longrightarrow> content_of ev w \<noteq> [] \<Longrightarrow>
   childNodes w = Element i t a ks # cs \<Longrightarrow>
   getPotentialPerformanceRisk (content_of ev w) pg1 = (Inr risk, pg2) \<Longrightarrow> \<not> any_risk risk \<Longrightarrow>
   mermaid pg2 = Some m \<Longrightarrow>
   render ev (w, pg) =
     (let rid = render_id (clock ev (reads pg2));
          w1 = w\<lparr>childNodes := Element i t (set_attr ''style'' ''display:none'' a) ks # cs\<rparr>;
          pg3 = log_event (ApiRender rid (content_of ev w) (tmpContainer w))
                  (pg2\<lparr>reads := Suc (reads pg2)\<rparr>)
      in case api_render m rid (content_of ev w) of
           Inl e \<Rightarrow> (Inl e, w1, pg3)
         | Inr svgCode \<Rightarrow>
             (Inr (),
              w1\<lparr>childNodes := childNodes w1 @ [Element (next_id pg2) ''div'' [] (parseHTML ev svgCode)]\<rparr>,
              pg3\<lparr>next_id := Suc (next_id pg2)\<rparr>))"
  by (simp add: render_def render_body_def Let_def insert_svg_def log_event_def split: sum.splits)

lemma no_risk_defined:
  "getPotentialPerformanceRisk source pg = (Inr risk, pg2) \<Longrightarrow> \<not> any_risk risk \<Longrightarrow>
   mermaid pg2 \<noteq> None"
  by (auto simp add: risk_returns any_risk_def cool_def log_event_def Let_def split: option.splits)

lemma risk_render_calls:
  "getPotentialPerformanceRisk source pg = (r, pg2) \<Longrightarrow> render_calls pg2 = render_calls pg"
  using render_calls_cool [of source pg] by (simp add: risk_returns)

lemma any_risk_iff:
  "any_risk risk =
     (yes (syntaxError risk) \<or> yes (charLimitOver risk) \<or> yes (chainingOfLinksOver risk))"
  by (auto simp add: any_risk_def)

lemma set_attr_reads: "map_of (set_attr k v a) k = Some v"
  by (induction a) auto

subsection \<open>The identifier of a render\<close>

lemma unat_digit_unit: "d < 10 \<Longrightarrow> unat (digit_unit d) = 48 + d"
  unfolding digit_unit_def by (subst unat_of_nat) simp

lemma digit_unit_inj:
  assumes "a < 10" and "b < 10" and "digit_unit a = digit_unit b"
  shows "a = b"
proof -
  have "48 + a = unat (digit_unit a)" using assms(1) by (rule unat_digit_unit [symmetric])
  also have "\<dots> = unat (digit_unit b)" by (simp only: assms(3))
  also have "\<dots> = 48 + b" using assms(2) by (rule unat_digit_unit)
  finally show ?thesis by (simp only: add_left_cancel)
qed

lemma toString_nonempty: "toString n \<noteq> []"
  by (subst toString.simps) simp

lemma toString_inj: "toString a = toString b \<Longrightarrow> a = b"
proof (induction a arbitrary: b rule: toString.induct)
  case (1 n)
  show ?case
  proof (cases "n < 10")
    case True
    note n = this
    show ?thesis
    proof (cases "b < 10")
      case True
      with n "1.prems" show ?thesis
        by (simp add: toString.simps [of n] toString.simps [of b] digit_unit_inj)
    next
      case False
      with n "1.prems" toString_nonempty [of "b div 10"] show ?thesis
        by (simp add: toString.simps [of n] toString.simps [of b])
    qed
  next
    case False
    note n = this
    show ?thesis
    proof (cases "b < 10")
      case True
      with n "1.prems" toString_nonempty [of "n div 10"] show ?thesis
        by (simp add: toString.simps [of n] toString.simps [of b])
    next
      case False
      with n "1.prems" have e: "toString (n div 10) = toString (b div 10)"
        and d: "digit_unit (n mod 10) = digit_unit (b mod 10)"
        by (simp_all add: toString.simps [of n] toString.simps [of b])
      from "1.IH" [OF n e] have q: "n div 10 = b div 10" .
      from d have r: "n mod 10 = b mod 10" by (intro digit_unit_inj) simp_all
      have "n = 10 * (n div 10) + n mod 10" by simp
      also have "\<dots> = 10 * (b div 10) + b mod 10" using q r by simp
      finally show ?thesis by simp
    qed
  qed
qed

text \<open>
  Two renders get the same identifier exactly when they read the same value from the
  clock.
\<close>

lemma render_id_inj: "render_id a = render_id b \<longleftrightarrow> a = b"
  by (auto simp add: render_id_def dest: toString_inj)

subsection \<open>Facts about the examples\<close>

lemma flowchart_facts:
  "flowchart \<noteq> []" "length flowchart = 15" "count_amp flowchart = 0"
  by (simp_all add: flowchart_def asc_def count_amp_def)

lemma sequence_chart_facts:
  "sequence_chart \<noteq> []" "length sequence_chart = 26" "count_amp sequence_chart = 0"
  by (simp_all add: sequence_chart_def asc_def count_amp_def)

lemma render_id_example:
  "render_id 1700000000000 = asc ''mermaid-container-1700000000000-render''"
  by (simp add: render_id_def toString.simps asc_def digit_unit_def containerId_def)

lemma example_env_fields:
  "loadScript example_env = LoadResolved (Some lib_accepting)"
  "clock example_env k = 1700000000000"
  "parseHTML example_env s = [Element 0 ''svg'' [] []]"
  "innerText example_env ns = []"
  by (simp_all add: example_env_def)

text \<open>
  A render in the example surroundings, with the accepting library loaded, of a widget
  whose first child is an element and whose source is within both limits.
\<close>

lemma render_accepting:
  assumes m: "mermaid pg = Some lib_accepting"
    and c: "content_of example_env w = source" and s: "source \<noteq> []"
    and k: "childNodes w = Element i t a ks # cs"
    and l: "length source \<le> 2000" and n: "count_amp source \<le> 10"
  shows "render example_env (w, pg) =
     (Inr (),
      w\<lparr>childNodes := Element i t (set_attr ''style'' ''display:none'' a) ks # cs @
          [Element (next_id pg) ''div'' [] [Element 0 ''svg'' [] []]]\<rparr>,
      pg\<lparr>trace := trace pg @ [ApiParse source, ApiRender (render_id 1700000000000) source (tmpContainer w)],
         reads := Suc (reads pg), next_id := Suc (next_id pg)\<rparr>)"
proof -
  let ?risk = "\<lparr>syntaxError = \<lparr>yes = False, message = syntaxError_message\<rparr>,
           charLimitOver = \<lparr>yes = False, message = charLimitOver_message\<rparr>,
           chainingOfLinksOver = \<lparr>yes = False, message = chainingOfLinksOver_message\<rparr>\<rparr>"
  let ?pg2 = "log_event (ApiParse source) pg"
  have i: "initMermaid example_env pg = (Inr (), pg)"
    using m by (rule initMermaid_loaded)
  have r: "getPotentialPerformanceRisk (content_of example_env w) pg = (Inr ?risk, ?pg2)"
    using m l n
    by (simp add: c risk_returns cool_def lib_accepting_def Let_def MAX_CHAR_LIMIT_def
        MAX_CHAINING_OF_LINKS_LIMIT_def)
  have a: "\<not> any_risk ?risk" by (simp add: any_risk_def)
  have m2: "mermaid ?pg2 = Some lib_accepting" using m by (simp add: log_event_def)
  have c0: "content_of example_env w \<noteq> []" using c s by simp
  show ?thesis
    unfolding render_no_risk [OF i c0 k r a m2]
    by (simp add: c Let_def log_event_def lib_accepting_def example_env_fields)
qed

subsection \<open>What render does\<close>

text \<open>
  C3, amended. For a widget whose first child is an element and whose content is not
  empty, once \<open>initMermaid\<close> has resolved and the risk set is computed, \<open>render\<close>
  does exactly one of two things. If a flag of the risk set is true, the children of the
  widget become the parsed error markup and the library's \<open>render\<close> is not called.
  If no flag is true, the library's \<open>render\<close> is called once, with the identifier
  \<open>mermaid-container-<t>-render\<close> where \<open>t\<close> is the value read from the clock at
  that moment, and the children are the hidden source, the former siblings and, when
  the library hands over SVG code, one new \<open>div\<close> holding it: no error markup. The
  identifier is a function of the clock reading alone: another reading gives another
  identifier, the same reading the same one.
\<close>

theorem render_outcomes:
  assumes "initMermaid ev pg = (Inr (), pg1)"
    and "content_of ev w \<noteq> []"
    and "childNodes w = Element i t a ks # cs"
    and "getPotentialPerformanceRisk (content_of ev w) pg1 = (Inr risk, pg2)"
  shows "if yes (syntaxError risk) \<or> yes (charLimitOver risk) \<or> yes (chainingOfLinksOver risk)
         then render ev (w, pg) =
                (Inr (), w\<lparr>childNodes := parseHTML ev (error_markup risk)\<rparr>, pg2) \<and>
              render_calls pg2 = render_calls pg
         else (\<exists>m. mermaid pg2 = Some m \<and>
                 childNodes (fst (snd (render ev (w, pg)))) =
                   Element i t (set_attr ''style'' ''display:none'' a) ks # cs @
                   (case api_render m (render_id (clock ev (reads pg2))) (content_of ev w) of
                      Inl e \<Rightarrow> []
                    | Inr svgCode \<Rightarrow> [Element (next_id pg2) ''div'' [] (parseHTML ev svgCode)])) \<and>
              trace (snd (snd (render ev (w, pg)))) =
                trace pg2 @
                [ApiRender (render_id (clock ev (reads pg2))) (content_of ev w) (tmpContainer w)] \<and>
              render_calls (snd (snd (render ev (w, pg)))) = render_calls pg + 1 \<and>
              (\<forall>t. (render_id t = render_id (clock ev (reads pg2))) = (t = clock ev (reads pg2)))"
proof (cases "any_risk risk")
  case True
  have "render_calls pg1 = render_calls pg"
    using render_calls_initMermaid [of ev pg] assms(1) by simp
  then have "render_calls pg2 = render_calls pg"
    using risk_render_calls [OF assms(4)] by simp
  with True render_risk [OF assms True] show ?thesis
    by (simp add: any_risk_iff)
next
  case False
  from no_risk_defined [OF assms(4) False] obtain m where m: "mermaid pg2 = Some m"
    by auto
  have c1: "render_calls pg1 = render_calls pg"
    using render_calls_initMermaid [of ev pg] assms(1) by simp
  have c2: "render_calls pg2 = render_calls pg"
    using risk_render_calls [OF assms(4)] c1 by simp
  note r = render_no_risk [OF assms False m]
  have k: "childNodes (fst (snd (render ev (w, pg)))) =
             Element i t (set_attr ''style'' ''display:none'' a) ks # cs @
             (case api_render m (render_id (clock ev (reads pg2))) (content_of ev w) of
                Inl e \<Rightarrow> []
              | Inr svgCode \<Rightarrow> [Element (next_id pg2) ''div'' [] (parseHTML ev svgCode)])"
    unfolding r by (simp add: Let_def split: sum.splits)
  have t: "trace (snd (snd (render ev (w, pg)))) =
             trace pg2 @
             [ApiRender (render_id (clock ev (reads pg2))) (content_of ev w) (tmpContainer w)]"
    unfolding r by (simp add: Let_def log_event_def split: sum.splits)
  have n: "render_calls (snd (snd (render ev (w, pg)))) = render_calls pg + 1"
    using t c2 by (simp add: render_calls_def)
  from False m k t n show ?thesis
    by (simp add: any_risk_iff render_id_inj)
qed

theorem render_outcomes_witness:
  "initMermaid example_env page_accepting = (Inr (), page_accepting) \<and>
   content_of example_env (source_widget 0 flowchart) \<noteq> [] \<and>
   childNodes (source_widget 0 flowchart) = [Element 0 ''pre'' [] [Text flowchart]] \<and>
   (\<exists>risk. getPotentialPerformanceRisk (content_of example_env (source_widget 0 flowchart))
       page_accepting = (Inr risk, log_event (ApiParse flowchart) page_accepting) \<and>
      \<not> (yes (syntaxError risk) \<or> yes (charLimitOver risk) \<or> yes (chainingOfLinksOver risk))) \<and>
   trace (snd (snd (render example_env (source_widget 0 flowchart, page_accepting)))) =
     [ApiParse flowchart, ApiRender (render_id 1700000000000) flowchart None] \<and>
   render_calls (snd (snd (render example_env (source_widget 0 flowchart, page_accepting)))) = 1"
proof -
  let ?risk = "\<lparr>syntaxError = \<lparr>yes = False, message = syntaxError_message\<rparr>,
           charLimitOver = \<lparr>yes = False, message = charLimitOver_message\<rparr>,
           chainingOfLinksOver = \<lparr>yes = False, message = chainingOfLinksOver_message\<rparr>\<rparr>"
  let ?pg2 = "log_event (ApiParse flowchart) page_accepting"
  have c: "content_of example_env (source_widget 0 flowchart) = flowchart"
    by (simp add: content_source_widget flowchart_facts)
  have i: "initMermaid example_env page_accepting = (Inr (), page_accepting)"
    by (simp add: initMermaid_loaded page_accepting_def)
  have n: "content_of example_env (source_widget 0 flowchart) \<noteq> []"
    by (simp add: c flowchart_facts)
  have k: "childNodes (source_widget 0 flowchart) = Element 0 ''pre'' [] [Text flowchart] # []"
    by (simp add: source_widget_def)
  have r: "getPotentialPerformanceRisk (content_of example_env (source_widget 0 flowchart))
             page_accepting = (Inr ?risk, ?pg2)"
    by (simp add: c risk_returns cool_def lib_accepting_def page_accepting_def Let_def
        MAX_CHAR_LIMIT_def MAX_CHAINING_OF_LINKS_LIMIT_def flowchart_facts)
  have t: "trace ?pg2 = [ApiParse flowchart]" "reads ?pg2 = 0"
    by (simp_all add: log_event_def page_accepting_def)
  have z: "render_calls page_accepting = 0" "tmpContainer (source_widget 0 flowchart) = None"
    by (simp_all add: render_calls_def page_accepting_def source_widget_def)
  from render_outcomes [OF i n k r] have
    "trace (snd (snd (render example_env (source_widget 0 flowchart, page_accepting)))) =
       [ApiParse flowchart, ApiRender (render_id 1700000000000) flowchart None] \<and>
     render_calls (snd (snd (render example_env (source_widget 0 flowchart, page_accepting)))) = 1"
    by (simp add: c t z example_env_fields)
  with i n k r show ?thesis by auto
qed

text \<open>
  C3, counterexample. The identifier is not unique per render. Two widgets
  attached to one page and rendered while the clock shows the same millisecond hand the
  library the same identifier.
\<close>

theorem render_id_shared:
  "filter is_ApiRender
     (trace (snd (snd (render example_env
        (fst (connectedCallback (source_widget 1 sequence_chart,
                snd (connectedCallback (source_widget 0 flowchart, page_accepting)))),
         snd (snd (render example_env
           (fst (connectedCallback (source_widget 0 flowchart, page_accepting)),
            snd (connectedCallback (source_widget 1 sequence_chart,
                   snd (connectedCallback (source_widget 0 flowchart, page_accepting)))))))))))) =
   [ApiRender (asc ''mermaid-container-1700000000000-render'') flowchart (Some 2),
    ApiRender (asc ''mermaid-container-1700000000000-render'') sequence_chart (Some 3)]"
proof -
  let ?WA = "\<lparr>childNodes = [Element 0 ''pre'' [] [Text flowchart], Element 2 ''div'' [] []],
              tmpContainer = Some 2, observer = Some [2]\<rparr>"
  let ?PA = "\<lparr>mermaid = Some lib_accepting, trace = [], reads = 0, next_id = 3\<rparr>"
  let ?WB = "\<lparr>childNodes = [Element 1 ''pre'' [] [Text sequence_chart], Element 3 ''div'' [] []],
              tmpContainer = Some 3, observer = Some [3]\<rparr>"
  let ?P0 = "\<lparr>mermaid = Some lib_accepting, trace = [], reads = 0, next_id = 4\<rparr>"
  let ?P1 = "\<lparr>mermaid = Some lib_accepting,
              trace = [ApiParse flowchart, ApiRender (render_id 1700000000000) flowchart (Some 2)],
              reads = 1, next_id = 5\<rparr>"
  have wa: "connectedCallback (source_widget 0 flowchart, page_accepting) = (?WA, ?PA)"
    by (simp add: connectedCallback_def source_widget_def page_accepting_def Let_def)
  have wb: "connectedCallback (source_widget 1 sequence_chart, ?PA) = (?WB, ?P0)"
    by (simp add: connectedCallback_def source_widget_def Let_def)
  have ra: "snd (snd (render example_env (?WA, ?P0))) = ?P1"
    by (subst render_accepting [where source = flowchart and i = 0 and t = "''pre''" and a = "[]"
          and ks = "[Text flowchart]" and cs = "[Element 2 ''div'' [] []]"])
      (simp_all add: content_of_def flowchart_facts)
  have rb: "trace (snd (snd (render example_env (?WB, ?P1)))) =
     [ApiParse flowchart, ApiRender (render_id 1700000000000) flowchart (Some 2),
      ApiParse sequence_chart, ApiRender (render_id 1700000000000) sequence_chart (Some 3)]"
    by (subst render_accepting [where source = sequence_chart and i = 1 and t = "''pre''"
          and a = "[]" and ks = "[Text sequence_chart]" and cs = "[Element 3 ''div'' [] []]"])
      (simp_all add: content_of_def sequence_chart_facts)
  show ?thesis
    by (simp only: wa wb fst_conv snd_conv ra rb) (simp add: render_id_example)
qed

text \<open>
  C9, amended. When the content of the widget is empty, \<open>render\<close> does nothing
  beyond the \<open>initMermaid\<close> that precedes the check: the widget is returned as it
  was (no child hidden, no error markup), and the page is the one \<open>initMermaid\<close>
  leaves, so the parser and the library's \<open>render\<close> are not called. With the library
  loaded already the page is unchanged as well.
\<close>

theorem render_empty_content:
  assumes "content_of ev w = []"
  shows "render ev (w, pg) =
           (case mermaid pg of
              None \<Rightarrow> (fst (initMermaid ev pg), w, snd (initMermaid ev pg))
            | Some m \<Rightarrow> (Inr (), w, pg))"
proof (cases "mermaid pg")
  case None
  obtain r pg1 where i: "initMermaid ev pg = (r, pg1)" by (cases "initMermaid ev pg")
  show ?thesis
  proof (cases r)
    case (Inl e)
    with None i show ?thesis by (simp add: render_def)
  next
    case (Inr u)
    with None i render_empty [of ev pg u pg1 w] assms show ?thesis by simp
  qed
next
  case (Some m)
  from render_empty [OF initMermaid_loaded [OF Some] assms] Some show ?thesis by simp
qed

theorem render_empty_content_witness:
  "content_of example_env (source_widget 0 []) = [] \<and>
   render example_env (source_widget 0 [], page_accepting) =
     (Inr (), source_widget 0 [], page_accepting)"
proof -
  have h: "content_of example_env (source_widget 0 []) = []"
    by (simp add: content_of_def source_widget_def example_env_fields)
  from render_empty_content [OF h, of page_accepting] h show ?thesis
    by (simp add: page_accepting_def)
qed

text \<open>
  C9, counterexample. On a page where the library is not loaded yet, a
  \<open>render\<close> of a widget with empty content loads the script and initialises the
  library.
\<close>

theorem render_empty_loads_library:
  "content_of example_env (source_widget 0 []) = [] \<and>
   trace page_fresh = [] \<and>
   trace (snd (snd (render example_env (source_widget 0 [], page_fresh)))) =
     [LoadScript script_src ''mermaid-js'', Initialize mermaid_options, ApiInitialize api_options]"
proof -
  have h: "content_of example_env (source_widget 0 []) = []"
    by (simp add: content_of_def source_widget_def example_env_fields)
  have i: "initMermaid example_env page_fresh =
             (Inr (), page_fresh\<lparr>mermaid := Some lib_accepting,
                 trace := trace page_fresh @ [LoadScript script_src ''mermaid-js'',
                   Initialize mermaid_options, ApiInitialize api_options]\<rparr>)"
    by (rule initMermaid_first) (simp_all add: page_fresh_def example_env_fields)
  have t: "trace page_fresh = []" by (simp add: page_fresh_def)
  show ?thesis
    unfolding render_empty [OF i h] using h t by simp
qed

text \<open>
  C10. For a widget whose first child is the source element and whose content is not
  empty, once \<open>initMermaid\<close> has resolved and the risk set is computed: if a flag is
  true, the children of the widget are exactly the parsed error markup, whatever they
  were, so neither the source element nor the temporary container is a child any more
  (the field \<open>_tmpContainer\<close> and the observer are as before); if no flag is true,
  the source element stays the first child, its \<open>style\<close> set to \<open>display:none\<close>,
  followed by its former siblings and then the new \<open>div\<close>, if any.
\<close>

theorem source_removed_or_hidden:
  assumes "initMermaid ev pg = (Inr (), pg1)"
    and "content_of ev w \<noteq> []"
    and "childNodes w = Element i t a ks # cs"
    and "getPotentialPerformanceRisk (content_of ev w) pg1 = (Inr risk, pg2)"
  shows "\<exists>inserted.
           fst (snd (render ev (w, pg))) =
             w\<lparr>childNodes :=
                 (if any_risk risk then parseHTML ev (error_markup risk)
                  else Element i t (set_attr ''style'' ''display:none'' a) ks # cs @ inserted)\<rparr> \<and>
           map_of (set_attr ''style'' ''display:none'' a) ''style'' = Some ''display:none''"
proof (cases "any_risk risk")
  case True
  with render_risk [OF assms True] show ?thesis
    by (simp add: set_attr_reads)
next
  case False
  from no_risk_defined [OF assms(4) False] obtain m where m: "mermaid pg2 = Some m"
    by auto
  note r = render_no_risk [OF assms False m]
  show ?thesis
  proof (cases "api_render m (render_id (clock ev (reads pg2))) (content_of ev w)")
    case (Inl e)
    with False show ?thesis
      unfolding r by (intro exI [of _ "[]"]) (simp add: Let_def set_attr_reads)
  next
    case (Inr svgCode)
    with False show ?thesis
      unfolding r
      by (intro exI [of _ "[Element (next_id pg2) ''div'' [] (parseHTML ev svgCode)]"])
        (simp add: Let_def set_attr_reads)
  qed
qed

theorem source_removed_or_hidden_witness:
  "initMermaid example_env page_rejecting = (Inr (), page_rejecting) \<and>
   content_of example_env (source_widget 0 flowchart) \<noteq> [] \<and>
   childNodes (source_widget 0 flowchart) = [Element 0 ''pre'' [] [Text flowchart]] \<and>
   (\<exists>risk pg2. getPotentialPerformanceRisk (content_of example_env (source_widget 0 flowchart))
       page_rejecting = (Inr risk, pg2) \<and> any_risk risk \<and>
      fst (snd (render example_env (source_widget 0 flowchart, page_rejecting))) =
        (source_widget 0 flowchart)\<lparr>childNodes := parseHTML example_env (error_markup risk)\<rparr>)"
proof -
  let ?risk = "\<lparr>syntaxError = \<lparr>yes = True, message = syntaxError_message\<rparr>,
           charLimitOver = \<lparr>yes = False, message = charLimitOver_message\<rparr>,
           chainingOfLinksOver = \<lparr>yes = False, message = chainingOfLinksOver_message\<rparr>\<rparr>"
  let ?pg2 = "log_event (ConsoleLog syntax_log_message (Thrown (asc ''Parse error'')))
                (log_event (ApiParse flowchart) page_rejecting)"
  have c: "content_of example_env (source_widget 0 flowchart) = flowchart"
    by (simp add: content_source_widget flowchart_facts)
  have i: "initMermaid example_env page_rejecting = (Inr (), page_rejecting)"
    by (simp add: initMermaid_loaded page_rejecting_def)
  have n: "content_of example_env (source_widget 0 flowchart) \<noteq> []"
    by (simp add: c flowchart_facts)
  have k: "childNodes (source_widget 0 flowchart) = Element 0 ''pre'' [] [Text flowchart] # []"
    by (simp add: source_widget_def)
  have r: "getPotentialPerformanceRisk (content_of example_env (source_widget 0 flowchart))
             page_rejecting = (Inr ?risk, ?pg2)"
    by (simp add: c risk_returns cool_def lib_rejecting_def page_rejecting_def Let_def
        MAX_CHAR_LIMIT_def MAX_CHAINING_OF_LINKS_LIMIT_def flowchart_facts)
  have a: "any_risk ?risk" by (simp add: any_risk_def)
  from source_removed_or_hidden [OF i n k r] a have
    "fst (snd (render example_env (source_widget 0 flowchart, page_rejecting))) =
        (source_widget 0 flowchart)\<lparr>childNodes := parseHTML example_env (error_markup ?risk)\<rparr>"
    by simp
  with i n k r a show ?thesis by blast
qed

subsection \<open>The visibility observer\<close>

lemma on_entry_hidden: "\<not> isIntersecting e \<Longrightarrow> on_entry e acc = acc"
  by (simp add: on_entry_def split: prod.splits)

lemma fold_on_entry_hidden: "filter isIntersecting es = [] \<Longrightarrow> fold on_entry es acc = acc"
  by (induction es arbitrary: acc) (simp_all add: on_entry_hidden split: if_splits)

lemma fold_on_entry_one:
  "filter isIntersecting es = [e] \<Longrightarrow> fold on_entry es acc = on_entry e acc"
proof (induction es arbitrary: acc)
  case Nil
  then show ?case by simp
next
  case (Cons x xs)
  show ?case
  proof (cases "isIntersecting x")
    case True
    with Cons.prems have x: "x = e" and n: "filter isIntersecting xs = []" by simp_all
    then show ?thesis by (simp add: fold_on_entry_hidden)
  next
    case False
    with Cons.prems have "filter isIntersecting xs = [e]" by simp
    from Cons.IH [OF this] False show ?thesis by (simp add: on_entry_hidden)
  qed
qed

text \<open>A batch without an intersecting entry changes nothing.\<close>

lemma observer_callback_hidden:
  "filter isIntersecting es = [] \<Longrightarrow> observer_callback ev es st = st"
  by (simp add: observer_callback_def fold_on_entry_hidden)

text \<open>
  A batch in which exactly one entry is intersecting unobserves the temporary container
  and runs \<open>render\<close> once.
\<close>

lemma observer_callback_one:
  assumes "filter isIntersecting es = [e]" and "tmpContainer w = Some t"
  shows "observer_callback ev es (w, pg) =
           (case render ev (w\<lparr>observer := map_option (removeAll t) (observer w)\<rparr>, pg) of
              (r, w', pg') \<Rightarrow> (w', pg'))"
proof -
  from assms(1) have i: "isIntersecting e"
    by (metis filter_eq_Cons_iff)
  obtain awaiting pg1 where s: "initMermaid_start pg = (awaiting, pg1)"
    by (cases "initMermaid_start pg")
  show ?thesis
    using i s assms(2)
    by (simp add: observer_callback_def fold_on_entry_one [OF assms(1)] on_entry_def render_split)
qed

lemma render_keeps_fields:
  "tmpContainer (fst (snd (render ev (w, pg)))) = tmpContainer w \<and>
   observer (fst (snd (render ev (w, pg)))) = observer w"
  by (auto simp add: render_def render_body_def Let_def insert_svg_def risk_returns
      split: prod.splits sum.splits list.splits if_splits option.splits)

text \<open>After such a batch the temporary container is no longer observed.\<close>

lemma observer_callback_unobserves:
  assumes "filter isIntersecting es = [e]" and "tmpContainer w = Some t"
    and "observer w = Some ts"
  shows "observer (fst (observer_callback ev es (w, pg))) = Some (removeAll t ts)"
proof -
  let ?w = "w\<lparr>observer := map_option (removeAll t) (observer w)\<rparr>"
  obtain r w' pg' where r: "render ev (?w, pg) = (r, w', pg')"
    by (cases "render ev (?w, pg)")
  from render_keeps_fields [of ev ?w pg] r have "observer w' = observer ?w" by simp
  with assms(3) r show ?thesis
    by (simp add: observer_callback_one [OF assms(1,2)])
qed

lemma render_resume_loaded:
  "mermaid pg = Some m \<Longrightarrow> render_resume ev False (w, pg) = render ev (w, pg)"
  by (simp add: render_split initMermaid_start_def)

text \<open>
  C8. The claim fails on the code for a batch that holds more than one intersecting
  entry: \<open>forEach\<close> calls \<open>render\<close> for each of them. An attached widget with a
  valid flowchart, library loaded, gets the batch visible, out of sight, visible: the
  library's \<open>render\<close> is called twice, two diagrams are appended, and unobserving the
  temporary container stops later batches only.
\<close>

theorem observer_renders_twice:
  "render_calls
     (snd (observer_callback example_env flicker_batch
        (connectedCallback (source_widget 0 flowchart, page_accepting)))) = 2 \<and>
   childNodes
     (fst (observer_callback example_env flicker_batch
        (connectedCallback (source_widget 0 flowchart, page_accepting)))) =
     [Element 0 ''pre'' [(''style'', ''display:none'')] [Text flowchart],
      Element 2 ''div'' [] [],
      Element 3 ''div'' [] [Element 0 ''svg'' [] []],
      Element 4 ''div'' [] [Element 0 ''svg'' [] []]] \<and>
   observer
     (fst (observer_callback example_env flicker_batch
        (connectedCallback (source_widget 0 flowchart, page_accepting)))) = Some []"
proof -
  let ?W0 = "\<lparr>childNodes = [Element 0 ''pre'' [] [Text flowchart], Element 2 ''div'' [] []],
              tmpContainer = Some 2, observer = Some [2]\<rparr>"
  let ?P0 = "\<lparr>mermaid = Some lib_accepting, trace = [], reads = 0, next_id = 3\<rparr>"
  let ?W0' = "\<lparr>childNodes = [Element 0 ''pre'' [] [Text flowchart], Element 2 ''div'' [] []],
              tmpContainer = Some 2, observer = Some []\<rparr>"
  let ?W1 = "\<lparr>childNodes = [Element 0 ''pre'' [(''style'', ''display:none'')] [Text flowchart],
                Element 2 ''div'' [] [], Element 3 ''div'' [] [Element 0 ''svg'' [] []]],
              tmpContainer = Some 2, observer = Some []\<rparr>"
  let ?P1 = "\<lparr>mermaid = Some lib_accepting,
              trace = [ApiParse flowchart, ApiRender (render_id 1700000000000) flowchart (Some 2)],
              reads = 1, next_id = 4\<rparr>"
  let ?W2 = "\<lparr>childNodes = [Element 0 ''pre'' [(''style'', ''display:none'')] [Text flowchart],
                Element 2 ''div'' [] [], Element 3 ''div'' [] [Element 0 ''svg'' [] []],
                Element 4 ''div'' [] [Element 0 ''svg'' [] []]],
              tmpContainer = Some 2, observer = Some []\<rparr>"
  let ?P2 = "\<lparr>mermaid = Some lib_accepting,
              trace = [ApiParse flowchart, ApiRender (render_id 1700000000000) flowchart (Some 2),
                       ApiParse flowchart, ApiRender (render_id 1700000000000) flowchart (Some 2)],
              reads = 2, next_id = 5\<rparr>"
  have c: "connectedCallback (source_widget 0 flowchart, page_accepting) = (?W0, ?P0)"
    by (simp add: connectedCallback_def source_widget_def page_accepting_def Let_def)
  have f: "fold on_entry flicker_batch ((?W0, ?P0), []) = ((?W0', ?P0), [False, False])"
    by (simp add: flicker_batch_def on_entry_def initMermaid_start_def)
  have l1: "render_resume example_env False (?W0', ?P0) = render example_env (?W0', ?P0)"
    by (rule render_resume_loaded) simp
  have l2: "render_resume example_env False (?W1, ?P1) = render example_env (?W1, ?P1)"
    by (rule render_resume_loaded) simp
  have r1: "render_resume example_env False (?W0', ?P0) = (Inr (), ?W1, ?P1)"
    unfolding l1
    by (subst render_accepting [where source = flowchart and i = 0 and t = "''pre''" and a = "[]"
          and ks = "[Text flowchart]" and cs = "[Element 2 ''div'' [] []]"])
      (simp_all add: content_of_def flowchart_facts)
  have r2: "render_resume example_env False (?W1, ?P1) = (Inr (), ?W2, ?P2)"
    unfolding l2
    by (subst render_accepting [where source = flowchart and i = 0 and t = "''pre''"
          and a = "[(''style'', ''display:none'')]" and ks = "[Text flowchart]"
          and cs = "[Element 2 ''div'' [] [], Element 3 ''div'' [] [Element 0 ''svg'' [] []]]"])
      (simp_all add: content_of_def flowchart_facts)
  have "observer_callback example_env flicker_batch
          (connectedCallback (source_widget 0 flowchart, page_accepting)) = (?W2, ?P2)"
    by (simp only: c observer_callback_def f prod.case fold.simps o_apply id_apply r1 r2)
  then show ?thesis
    by (simp add: render_calls_def)
qed

section \<open>Properties of the markdown converter\<close>

subsection \<open>Containing a text\<close>






subsection \<open>Escaping\<close>





lemma allowed_br: "allowed_html ''<br>''"
  by (simp add: allowed_html_def html_allowlist_def)

subsection \<open>What the output holds of the prose and of the code\<close>









subsection \<open>The stand-in parser on the inputs of the test\<close>

lemmas lite_defs =
  commonmark_lite_def is_blank_def is_row_def trim_def fence_open_def fence_close_def indent_def
  run_length_def html_tag_at_def is_letter_def is_punct_def is_delimiter_def cells_def
  para_def table_def unlines_def code_content_def backtick_def newline_def space_def Let_def


lemma lite_table:
  "commonmark_lite tableString =
     [TableBlock [[TextRun ''a''], [TextRun ''b'']]
        [[[TextRun ''foo'', HtmlInline ''<br>'', TextRun ''bar''], [TextRun ''c'']]]]"
  by (simp add: lite_defs tableString_def)



lemmas html_defs =
  markdownToHtml_def render_inlines_def escapeHtml_def allowed_html_def html_allowlist_def
  table_row_def


lemma md_table:
  "markdownToHtml commonmark_lite tableString =
     ''<table>\<newline><thead>\<newline><tr>\<newline><th>a</th>\<newline><th>b</th>\<newline></tr>\<newline></thead>\<newline>'' @
     ''<tbody>\<newline><tr>\<newline><td>foo<br>bar</td>\<newline><td>c</td>\<newline></tr>\<newline></tbody>\<newline></table>\<newline>''"
  by (simp add: lite_table html_defs)



subsection \<open>Raw tags in prose, escaped tags in code\<close>





subsection \<open>What the stand-in parser reads as prose and as code\<close>

lemma add_text_other: "\<forall>t ts'. ts \<noteq> TextRun t # ts' \<Longrightarrow> add_text s ts = TextRun s # ts"
  by (cases "(s, ts)" rule: add_text.cases) auto

lemma parse_inline_text:
  assumes "simple_text a" and "\<forall>t ts. parse_inline x \<noteq> TextRun t # ts"
  shows "parse_inline (a @ x) = (if a = [] then parse_inline x else TextRun a # parse_inline x)"
  using assms(1)
proof (induction a)
  case Nil
  show ?case by simp
next
  case (Cons c cs)
  then have c: "c \<noteq> backtick" "c \<noteq> CHR ''<''" "c \<noteq> CHR 0x5C" "c \<noteq> newline"
    and s: "simple_text cs"
    by (simp_all add: simple_text_def)
  from c have "parse_inline ((c # cs) @ x) = add_text [c] (parse_inline (cs @ x))" by simp
  also have "\<dots> = TextRun (c # cs) # parse_inline x"
    using Cons.IH [OF s] assms(2) by (cases "cs = []") (simp_all add: add_text_other)
  finally show ?case by simp
qed

text \<open>
  In prose a \<open><br>\<close> is read as a raw HTML tag, whatever follows it.
\<close>

lemma parse_inline_br:
  assumes "simple_text a"
  shows "parse_inline (a @ ''<br>'' @ b) =
           (if a = [] then [] else [TextRun a]) @ HtmlInline ''<br>'' # parse_inline b"
proof -
  have h: "html_tag_at (''br>'' @ b) = Some ''br''"
    by (simp add: html_tag_at_def is_letter_def newline_def)
  have x: "parse_inline (''<br>'' @ b) = HtmlInline ''<br>'' # parse_inline b"
    using h by (simp add: backtick_def)
  from parse_inline_text [OF assms, of "''<br>'' @ b"] x show ?thesis by simp
qed

lemma run_length_replicate:
  "(s = [] \<or> hd s \<noteq> ch) \<Longrightarrow> run_length ch (replicate n ch @ s) = n"
proof -
  assume "s = [] \<or> hd s \<noteq> ch"
  then have "takeWhile (\<lambda>c. c = ch) s = []" by (cases s) auto
  then have "takeWhile (\<lambda>c. c = ch) (replicate n ch @ s) = replicate n ch"
    by (induction n) simp_all
  then show ?thesis by (simp add: run_length_def)
qed

lemma find_close_content:
  assumes "backtick \<notin> set c" and "b = [] \<or> hd b \<noteq> backtick" and "0 < n"
  shows "find_close n False (c @ replicate n backtick @ b) = Some (c, b)"
  using assms(1)
proof (induction c)
  case Nil
  from assms(3) obtain m where n: "n = Suc m" by (cases n) auto
  have "run_length backtick (replicate n backtick @ b) = n"
    using assms(2) by (rule run_length_replicate)
  then show ?case by (simp add: n)
next
  case (Cons x xs)
  then have "x \<noteq> backtick" and "backtick \<notin> set xs" by auto
  with Cons.IH show ?case by simp
qed

text \<open>
  What stands between two backtick runs of the same length is read as a code span,
  whatever it is, as long as it has no backtick itself.
\<close>

lemma parse_inline_code_span:
  assumes "backtick \<notin> set c" and "c \<noteq> []" and "b = [] \<or> hd b \<noteq> backtick" and "0 < n"
  shows "parse_inline (replicate n backtick @ c @ replicate n backtick @ b) =
           CodeInline (code_content c) # parse_inline b"
proof -
  from assms(4) obtain m where n: "n = Suc m" by (cases n) auto
  let ?t = "replicate m backtick @ c @ replicate n backtick @ b"
  have s: "replicate n backtick @ c @ replicate n backtick @ b = backtick # ?t"
    by (simp add: n)
  from assms(1,2) have "hd (c @ replicate n backtick @ b) \<noteq> backtick"
    by (cases c) auto
  then have "run_length backtick (replicate n backtick @ c @ replicate n backtick @ b) = n"
    using assms(2) run_length_replicate [of "c @ replicate n backtick @ b" backtick n] by simp
  then have r: "run_length backtick (backtick # ?t) = n" by (simp only: s)
  have "drop n (replicate n backtick @ c @ replicate n backtick @ b) =
          c @ replicate n backtick @ b"
    by simp
  then have d: "drop n (backtick # ?t) = c @ replicate n backtick @ b" by (simp only: s)
  have "parse_inline (backtick # ?t) =
          (case find_close (run_length backtick (backtick # ?t)) False
                  (drop (run_length backtick (backtick # ?t)) (backtick # ?t)) of
             Some (content, rest) \<Rightarrow> CodeInline (code_content content) # parse_inline rest
           | None \<Rightarrow>
               add_text (replicate (run_length backtick (backtick # ?t)) backtick)
                 (parse_inline (drop (run_length backtick (backtick # ?t)) (backtick # ?t))))"
    by (simp only: parse_inline.simps(2) simp_thms if_True)
  also have "\<dots> = CodeInline (code_content c) # parse_inline b"
    by (simp only: r d find_close_content [OF assms(1,3,4)] option.case prod.case)
  finally show ?thesis by (simp only: s)
qed

text \<open>
  The lines between an opening fence and the first line that closes it are read as the
  content of a fenced code block.
\<close>

lemma blocks_fence_body:
  assumes "list_all (\<lambda>l. \<not> fence_close ch n l) ls" and "fence_close ch n f"
  shows "blocks (InFence ch n acc) (ls @ f # rest) =
           FencedCode (unlines (acc @ ls)) # blocks Top rest"
  using assms(1) by (induction ls arbitrary: acc) (simp_all add: assms(2))

lemma blocks_fenced:
  assumes "fence_open o' = Some (ch, n)" and "list_all (\<lambda>l. \<not> fence_close ch n l) ls"
    and "fence_close ch n f"
  shows "blocks Top (o' # ls @ f # rest) = FencedCode (unlines ls) # blocks Top rest"
  using assms(1) blocks_fence_body [OF assms(2,3), of "[]" rest] by simp

subsection \<open>Whole inputs read by the stand-in parser\<close>

lemma split_on_line: "d \<notin> set l \<Longrightarrow> split_on d (l @ d # rest) = l # split_on d rest"
  by (induction l) auto

lemma split_on_single: "d \<notin> set l \<Longrightarrow> split_on d l = [l]"
  by (induction l) auto

lemma split_on_join_lines:
  "ls \<noteq> [] \<Longrightarrow> list_all (\<lambda>l. newline \<notin> set l) ls \<Longrightarrow> split_on newline (join_lines ls) = ls"
proof (induction ls rule: join_lines.induct)
  case 1
  then show ?case by simp
next
  case (2 l)
  then show ?case by (simp add: split_on_single)
next
  case (3 l v va)
  then show ?case by (simp add: split_on_line)
qed

text \<open>A line that starts with an ordinary character is a paragraph of its own.\<close>

lemma lite_single_line:
  assumes "newline \<notin> set l" and "l \<noteq> []" and "hd l \<noteq> space" and "hd l \<noteq> backtick"
    and "hd l \<noteq> CHR ''~''"
  shows "commonmark_lite l = [Para (parse_inline l)]"
proof -
  from assms(2,3) have d: "dropWhile (\<lambda>c. c = space) l = l" by (cases l) auto
  from assms(2,3) have i: "indent l = 0" by (cases l) (auto simp add: indent_def run_length_def)
  have f: "fence_open l = None" using assms(4,5) by (simp add: fence_open_def d)
  have "rev l \<noteq> []" using assms(2) by simp
  then have "dropWhile (\<lambda>c. c = space) (rev l) \<noteq> [] \<or> rev l = []"
    using assms(2,3) by (cases l) (auto simp add: dropWhile_append3 dropWhile_eq_Nil_conv)
  then have b: "\<not> is_blank l" using assms(2) by (simp add: is_blank_def trim_def d)
  show ?thesis
    using assms(1) f b i d
    by (simp add: commonmark_lite_def split_on_single para_def)
qed

lemma simple_text_line:
  assumes "simple_text a" and "a \<noteq> []"
  shows "hd a \<noteq> backtick" and "newline \<notin> set a"
proof -
  from assms(2) obtain x xs where a: "a = x # xs" by (cases a) auto
  with assms(1) show "hd a \<noteq> backtick" by (simp add: simple_text_def)
  from assms(1) show "newline \<notin> set a" by (auto simp add: simple_text_def list_all_iff)
qed

lemma lite_prose_line:
  assumes "simple_text a" and "a \<noteq> []" and "hd a \<noteq> space" and "hd a \<noteq> CHR ''~''"
    and "newline \<notin> set x"
  shows "commonmark_lite (a @ x) = [Para (parse_inline (a @ x))]"
proof (rule lite_single_line)
  show "newline \<notin> set (a @ x)" using simple_text_line(2) [OF assms(1,2)] assms(5) by simp
  show "a @ x \<noteq> []" using assms(2) by simp
  show "hd (a @ x) \<noteq> space" using assms(2,3) by simp
  show "hd (a @ x) \<noteq> backtick" using assms(2) simple_text_line(1) [OF assms(1,2)] by simp
  show "hd (a @ x) \<noteq> CHR ''~''" using assms(2,4) by simp
qed

lemma render_para_br:
  "render_block (Para (TextRun a # HtmlInline ''<br>'' # ns)) =
     ''<p>'' @ escapeHtml a @ ''<br>'' @ render_inlines ns @ ''</p>\<newline>''"
  using allowed_br by (simp add: render_inlines_def)

lemma render_para_code:
  "render_block (Para (TextRun a # CodeInline c # ns)) =
     ''<p>'' @ escapeHtml a @ ''<code>'' @ escapeHtml c @ ''</code>'' @ render_inlines ns @
     ''</p>\<newline>''"
  by (simp add: render_inlines_def)

lemma md_single_block: "p source = [b] \<Longrightarrow> markdownToHtml p source = render_block b"
  by (simp add: markdownToHtml_def)

text \<open>
  For every such line of prose with a \<open><br>\<close> in it, the tag is in the output as it
  was written.
\<close>

lemma md_prose_br:
  assumes "simple_text a" and "a \<noteq> []" and "hd a \<noteq> space" and "hd a \<noteq> CHR ''~''"
    and "newline \<notin> set b"
  shows "markdownToHtml commonmark_lite (a @ ''<br>'' @ b) =
           ''<p>'' @ escapeHtml a @ ''<br>'' @ render_inlines (parse_inline b) @ ''</p>\<newline>''"
proof -
  have n: "newline \<notin> set (''<br>'' @ b)" using assms(5) by (simp add: newline_def)
  have i: "parse_inline (a @ ''<br>'' @ b) = TextRun a # HtmlInline ''<br>'' # parse_inline b"
    using parse_inline_br [OF assms(1), of b] assms(2) by (simp only: if_False append.simps)
  have "markdownToHtml commonmark_lite (a @ ''<br>'' @ b) =
          render_block (Para (parse_inline (a @ ''<br>'' @ b)))"
    by (rule md_single_block) (rule lite_prose_line [OF assms(1-4) n])
  also have "\<dots> = render_block (Para (TextRun a # HtmlInline ''<br>'' # parse_inline b))"
    by (simp only: i)
  finally show ?thesis by (simp only: render_para_br)
qed

text \<open>
  For every such line with a code span in it, whatever the span holds is in the output
  escaped.
\<close>

lemma md_code_span:
  assumes "simple_text a" and "a \<noteq> []" and "hd a \<noteq> space" and "hd a \<noteq> CHR ''~''"
    and "backtick \<notin> set c" and "c \<noteq> []" and "newline \<notin> set c"
    and "b = [] \<or> hd b \<noteq> backtick" and "newline \<notin> set b" and "0 < n"
  shows "markdownToHtml commonmark_lite (a @ replicate n backtick @ c @ replicate n backtick @ b) =
           ''<p>'' @ escapeHtml a @ ''<code>'' @ escapeHtml (code_content c) @ ''</code>'' @
           render_inlines (parse_inline b) @ ''</p>\<newline>''"
proof -
  let ?x = "replicate n backtick @ c @ replicate n backtick @ b"
  have nb: "newline \<noteq> backtick" by (simp add: newline_def backtick_def)
  have nx: "newline \<notin> set ?x" using assms(7,9) nb by auto
  note x = parse_inline_code_span [OF assms(5,6,8,10)]
  have "parse_inline (a @ ?x) = (if a = [] then parse_inline ?x else TextRun a # parse_inline ?x)"
    by (rule parse_inline_text [OF assms(1)]) (simp only: x, simp)
  then have i: "parse_inline (a @ ?x) = TextRun a # CodeInline (code_content c) # parse_inline b"
    using assms(2) by (simp only: if_False x)
  have "markdownToHtml commonmark_lite (a @ ?x) = render_block (Para (parse_inline (a @ ?x)))"
    by (rule md_single_block) (rule lite_prose_line [OF assms(1-4) nx])
  also have "\<dots> = render_block (Para (TextRun a # CodeInline (code_content c) # parse_inline b))"
    by (simp only: i)
  finally show ?thesis by (simp only: render_para_code)
qed

text \<open>
  For every fenced block that is the whole input, whatever its lines hold is in the
  output escaped.
\<close>

lemma md_fenced_block:
  assumes "fence_open o' = Some (ch, n)" and "list_all (\<lambda>l. \<not> fence_close ch n l) ls"
    and "fence_close ch n f" and "list_all (\<lambda>l. newline \<notin> set l) (o' # ls @ [f])"
  shows "markdownToHtml commonmark_lite (join_lines (o' # ls @ [f])) =
           ''<pre><code>'' @ escapeHtml (unlines ls) @ ''</code></pre>\<newline>''"
proof -
  have "split_on newline (join_lines (o' # ls @ [f])) = o' # ls @ [f]"
    using assms(4) by (intro split_on_join_lines) simp_all
  then have "commonmark_lite (join_lines (o' # ls @ [f])) = blocks Top (o' # ls @ f # [])"
    by (simp add: commonmark_lite_def)
  also have "\<dots> = FencedCode (unlines ls) # blocks Top []"
    by (rule blocks_fenced [OF assms(1-3)])
  finally show ?thesis by (simp add: markdownToHtml_def)
qed


end
